theory Spec2Isabelle
  imports Complex_Main "HOL-Library.Sublist"
begin

section \<open>Signing options and errors\<close>

text \<open>
  A filesystem path is the list of its parts, as \<^verbatim>\<open>pathlib.Path.parts\<close> gives them.
\<close>

type_synonym path = "string list"

text \<open>The \<^verbatim>\<open>SignOpts\<close> named tuple of \<^verbatim>\<open>xsign.py\<close>, field by field.\<close>

record SignOpts =
  app_dir :: path
  common_name :: string
  team_id :: string
  prov_file :: "path option"
  bundle_id :: "string option"
  bundle_name :: "string option"
  patch_debug :: bool
  patch_all_devices :: bool
  patch_file_sharing :: bool
  encode_ids :: bool
  patch_ids :: bool
  force_original_id :: bool

text \<open>
  Every exception the code can raise is a value:
  \<^item> \<open>ProcessError\<close>: an external tool run with \<^verbatim>\<open>check=True\<close> ended with a non-zero status;
  \<^item> \<open>TimedOut\<close>: an exception whose \<^verbatim>\<open>__cause__\<close> is \<^verbatim>\<open>TimeoutExpired\<close>;
  \<^item> \<open>Fatal\<close>: \<^verbatim>\<open>raise Exception(msg) from cause\<close>;
  \<^item> \<open>JobFailed\<close>: the exception of \<^verbatim>\<open>popen_check\<close>, with the job's arguments and status.
\<close>

datatype error =
    ProcessError string
  | TimedOut string
  | Fatal string "error option"
  | JobFailed path int

definition bind_result :: "error + 'a \<Rightarrow> ('a \<Rightarrow> error + 'b) \<Rightarrow> error + 'b" where
  "bind_result r f = (case r of Inl e \<Rightarrow> Inl e | Inr x \<Rightarrow> f x)"

text \<open>Python's truth value of an \<^verbatim>\<open>Optional[str]\<close>: \<^verbatim>\<open>None\<close> and \<^verbatim>\<open>""\<close> are false.\<close>

definition truthy :: "string option \<Rightarrow> bool" where
  "truthy s = (case s of None \<Rightarrow> False | Some x \<Rightarrow> x \<noteq> [])"

section \<open>Property lists and PlistBuddy\<close>

text \<open>
  A property list is a dictionary from keys to values. A scalar keeps its type and the
  text of its value; arrays and dictionaries are containers. PlistBuddy is an external
  tool: the model covers the commands the code issues, on top-level keys and on the
  items of a top-level array.
\<close>

datatype ptype = TString | TBool | TInteger

datatype pvalue =
    PScalar ptype string
  | PArray "pvalue list"
  | PDict "(string \<times> pvalue) list"

type_synonym plist = "string \<rightharpoonup> pvalue"

datatype pb_cmd =
    Print string
  | Delete string
  | Set string string
  | Add string pvalue
  | AddItem string nat pvalue

definition indent :: "string \<Rightarrow> string" where
  "indent l = ''    '' @ l"

fun entry_lines :: "string \<Rightarrow> string list \<Rightarrow> string list" where
  "entry_lines k [] = [k @ '' = '']"
| "entry_lines k (l # ls) = (k @ '' = '' @ l) # ls"

fun render_lines :: "pvalue \<Rightarrow> string list" where
  "render_lines (PScalar t s) = [s]"
| "render_lines (PArray xs) =
     ''Array {'' # map indent (concat (map render_lines xs)) @ [''}'']"
| "render_lines (PDict kvs) =
     ''Dict {'' # map indent (concat (map (\<lambda>kv. entry_lines (fst kv) (render_lines (snd kv))) kvs))
       @ [''}'']"

fun unlines :: "string list \<Rightarrow> string" where
  "unlines [] = []"
| "unlines [l] = l"
| "unlines (l # ls) = l @ CHR 0x0A # unlines ls"

text \<open>
  \<^verbatim>\<open>plist_buddy(args, plist)\<close> with \<^verbatim>\<open>check=True\<close>: the cleaned output of the tool and the
  file it leaves, or the error of a failed run.
  \<^item> \<^verbatim>\<open>Print :k\<close> fails on a missing entry;
  \<^item> \<^verbatim>\<open>Delete :k\<close> fails on a missing entry;
  \<^item> \<^verbatim>\<open>Set :k v\<close> fails on a missing entry and on a container, and keeps the entry's type;
  \<^item> \<^verbatim>\<open>Add :k type v\<close> fails when the entry exists;
  \<^item> \<^verbatim>\<open>Add :k:i type v\<close> inserts into the array \<open>k\<close> at index \<open>i\<close>.
\<close>

fun plist_buddy :: "pb_cmd \<Rightarrow> plist \<Rightarrow> error + (string \<times> plist)" where
  "plist_buddy (Print k) p =
     (case p k of
        None \<Rightarrow> Inl (ProcessError ''PlistBuddy'')
      | Some v \<Rightarrow> Inr (unlines (render_lines v), p))"
| "plist_buddy (Delete k) p =
     (case p k of
        None \<Rightarrow> Inl (ProcessError ''PlistBuddy'')
      | Some v \<Rightarrow> Inr ([], p(k := None)))"
| "plist_buddy (Set k v) p =
     (case p k of
        Some (PScalar t old) \<Rightarrow> Inr ([], p(k \<mapsto> PScalar t v))
      | _ \<Rightarrow> Inl (ProcessError ''PlistBuddy''))"
| "plist_buddy (Add k v) p =
     (case p k of
        None \<Rightarrow> Inr ([], p(k \<mapsto> v))
      | Some old \<Rightarrow> Inl (ProcessError ''PlistBuddy''))"
| "plist_buddy (AddItem k i v) p =
     (case p k of
        Some (PArray xs) \<Rightarrow> Inr ([], p(k \<mapsto> PArray (take i xs @ v # drop i xs)))
      | _ \<Rightarrow> Inl (ProcessError ''PlistBuddy''))"

text \<open>The file a checked command leaves, when its output is not used.\<close>

definition plist_buddy_file :: "pb_cmd \<Rightarrow> plist \<Rightarrow> error + plist" where
  "plist_buddy_file c p = bind_result (plist_buddy c p) (\<lambda>r. Inr (snd r))"

text \<open>\<^verbatim>\<open>check=False\<close>: a failed run raises nothing and leaves the file as it was.\<close>

definition plist_buddy_unchecked :: "pb_cmd \<Rightarrow> plist \<Rightarrow> plist" where
  "plist_buddy_unchecked c p = (case plist_buddy c p of Inl e \<Rightarrow> p | Inr r \<Rightarrow> snd r)"

section \<open>Identifier of a component\<close>

text \<open>
  \<^verbatim>\<open>bundle_id = f"{main_bundle_id}{old_bundle_id[len(old_main_bundle_id):]}"\<close>
  in \<^verbatim>\<open>sign_primary\<close>. A Python slice \<^verbatim>\<open>s[n:]\<close> with \<open>n \<ge> 0\<close> drops the first
  \<open>n\<close> characters and is empty when \<open>n\<close> exceeds the length.
\<close>

definition component_bundle_id :: "string \<Rightarrow> string \<Rightarrow> string \<Rightarrow> string" where
  "component_bundle_id main_bundle_id old_main_bundle_id old_bundle_id =
     main_bundle_id @ drop (length old_main_bundle_id) old_bundle_id"

section \<open>The main bundle identifier\<close>

text \<open>
  \<^verbatim>\<open>s[s.find(".") + 1:]\<close>: what follows the first dot; \<^verbatim>\<open>find\<close> gives \<open>-1\<close> when there is
  no dot, and the slice is then the whole string.
\<close>

definition after_first_dot :: "string \<Rightarrow> string" where
  "after_first_dot s =
     (case dropWhile (\<lambda>c. c \<noteq> CHR ''.'') s of [] \<Rightarrow> s | d # rest \<Rightarrow> rest)"

text \<open>
  The policy at the head of \<^verbatim>\<open>sign\<close>. \<open>gen_id\<close> is the encoder of the \<^verbatim>\<open>util\<close> module,
  taken as a parameter. \<open>prov_entitlements\<close> is what \<^verbatim>\<open>dump_prov_entitlements_plist\<close>
  extracts from the provisioning profile (or the error of the extraction); it is read
  only in the branch that asks for the profile's application identifier. The result is
  the printed lines and the identifier.
\<close>

definition resolve_main_bundle_id ::
  "(string \<Rightarrow> string \<Rightarrow> string) \<Rightarrow> SignOpts \<Rightarrow> string \<Rightarrow> error + plist
     \<Rightarrow> error + (string list \<times> string)" where
  "resolve_main_bundle_id gen_id opts old_main_bundle_id prov_entitlements =
     (if prov_file opts \<noteq> None then
        (case bundle_id opts of
           None \<Rightarrow> Inr ([''Using original bundle id''], old_main_bundle_id)
         | Some b \<Rightarrow>
             if b = [] then
               bind_result prov_entitlements (\<lambda>entitlements_plist.
               bind_result (plist_buddy (Print ''application-identifier'') entitlements_plist)
                 (\<lambda>r.
                   let prov_app_id = fst r;
                       main_bundle_id = after_first_dot prov_app_id
                   in if CHR ''*'' \<in> set main_bundle_id then
                        Inr ([''Using provisioning profile's application id'',
                              ''Provisioning profile is wildcard, using original bundle id''],
                             old_main_bundle_id)
                      else Inr ([''Using provisioning profile's application id''],
                                main_bundle_id)))
             else Inr ([''Using custom bundle id''], b))
      else if truthy (bundle_id opts) then
        Inr ([''Using custom bundle id''], the (bundle_id opts))
      else if encode_ids opts then
        Inr ([''Using encoded original bundle id''],
             gen_id old_main_bundle_id (old_main_bundle_id @ team_id opts))
      else Inr ([''Using original bundle id''], old_main_bundle_id))"

text \<open>What \<^verbatim>\<open>sign\<close> writes to \<^verbatim>\<open>bundle_id.txt\<close>.\<close>

definition bundle_id_txt :: "SignOpts \<Rightarrow> string \<Rightarrow> string \<Rightarrow> string" where
  "bundle_id_txt opts old_main_bundle_id main_bundle_id =
     (if force_original_id opts then old_main_bundle_id else main_bundle_id)"

section \<open>Entitlements from a supplied provisioning profile\<close>

definition mismatch_warning :: "string \<Rightarrow> string \<Rightarrow> string" where
  "mismatch_warning prov_app_id component_app_id =
     ''WARNING: Provisioning profile's app id '' @ [CHR 0x27] @ prov_app_id @ [CHR 0x27] @
     '' does not match component's app id '' @ [CHR 0x27] @ component_app_id @ [CHR 0x27] @
     ''.'' @ [CHR 0x0A] @
     ''Using provisioning profile's app id - the component will run, but its entitlements will be broken!''"

text \<open>
  The branch \<^verbatim>\<open>opts.prov_file is not None\<close> of \<^verbatim>\<open>sign_primary\<close>: the entitlements come
  from the profile, and the application identifier is rewritten when it equals the
  component's or is a wildcard. \<open>new_bundle_id\<close> is the variable \<^verbatim>\<open>bundle_id\<close> of the
  source. The result is the printed lines and the entitlements file.
\<close>

definition sign_primary_prov ::
  "SignOpts \<Rightarrow> string \<Rightarrow> error + plist \<Rightarrow> error + (string list \<times> plist)" where
  "sign_primary_prov opts new_bundle_id prov_entitlements =
     bind_result prov_entitlements (\<lambda>entitlements_plist.
     bind_result (plist_buddy (Print ''application-identifier'') entitlements_plist) (\<lambda>r.
       let prov_app_id = fst r;
           component_app_id = team_id opts @ ''.'' @ new_bundle_id
       in if prov_app_id = component_app_id \<or> CHR ''*'' \<in> set prov_app_id then
            bind_result
              (plist_buddy_file (Set ''application-identifier'' component_app_id)
                 entitlements_plist)
              (\<lambda>p. Inr ([], p))
          else Inr ([mismatch_warning prov_app_id component_app_id], entitlements_plist)))"

section \<open>The oracle: stripping, remapping, patching\<close>

definition strip_items :: "string list" where
  "strip_items =
     [''application-identifier'',
      ''com.apple.developer.team-identifier'',
      ''get-task-allow'',
      ''com.apple.developer.in-app-payments'',
      ''com.apple.developer.mail-client'',
      ''com.apple.developer.web-browser'',
      ''com.apple.developer.networking.multicast'',
      ''com.apple.developer.usernotifications.filtering'',
      ''com.apple.developer.usernotifications.critical-alerts'',
      ''com.apple.developer.networking.HotspotHelper'',
      ''com.apple.managed.vpn.shared'',
      ''beta-reports-active'',
      ''com.apple.developer.carplay-messaging'',
      ''com.apple.developer.pushkit.unrestricted-voip'',
      ''com.apple.developer.associated-appclip-app-identifiers'']"

definition demote_items :: "(string \<times> string) list" where
  "demote_items =
     [(''com.apple.developer.icloud-container-environment'', ''Development''),
      (''aps-environment'', ''development'')]"

text \<open>
  The two loops of \<^verbatim>\<open>sign_primary\<close> over the delete list and the demotions, every command
  with \<^verbatim>\<open>check=False\<close>.
\<close>

definition strip_entitlements :: "plist \<Rightarrow> plist" where
  "strip_entitlements p =
     fold (\<lambda>ev. plist_buddy_unchecked (Set (fst ev) (snd ev))) demote_items
       (fold (\<lambda>item. plist_buddy_unchecked (Delete item)) strip_items p)"

text \<open>
  The memo table \<^verbatim>\<open>mappings\<close> and the loop that fills it:
  \<^verbatim>\<open>
  for remap_id in remap_ids:
      if remap_id not in mappings:
          if opts.encode_ids:
              if opts.bundle_id: seed = opts.bundle_id
              else: seed = remap_id + opts.team_id
              mappings[remap_id] = gen_id(remap_id, seed)
          else:
              mappings[remap_id] = remap_id
  \<close>
\<close>

definition remap_seed :: "SignOpts \<Rightarrow> string \<Rightarrow> string" where
  "remap_seed opts remap_id =
     (if truthy (bundle_id opts) then the (bundle_id opts) else remap_id @ team_id opts)"

definition remap :: "(string \<Rightarrow> string \<Rightarrow> string) \<Rightarrow> SignOpts \<Rightarrow> string
    \<Rightarrow> (string \<rightharpoonup> string) \<Rightarrow> (string \<rightharpoonup> string)" where
  "remap gen_id opts remap_id mappings =
     (case mappings remap_id of
        Some stored \<Rightarrow> mappings
      | None \<Rightarrow>
          if encode_ids opts then
            mappings(remap_id \<mapsto> gen_id remap_id (remap_seed opts remap_id))
          else mappings(remap_id \<mapsto> remap_id))"

definition remap_all :: "(string \<Rightarrow> string \<Rightarrow> string) \<Rightarrow> SignOpts \<Rightarrow> string list
    \<Rightarrow> (string \<rightharpoonup> string) \<Rightarrow> (string \<rightharpoonup> string)" where
  "remap_all gen_id opts remap_ids mappings = fold (remap gen_id opts) remap_ids mappings"

text \<open>
  \<^verbatim>\<open>re.escape\<close>, as the Python that the source needs has it (3.7 or later, for its
  \<^verbatim>\<open>from __future__ import annotations\<close>): a backslash goes before each of the characters
  \<^verbatim>\<open>( ) [ ] { } ? * + - | ^ $ . & ~ #\<close>, the backslash itself, the space, tab, newline,
  carriage return, vertical tab and form feed. Every other character is left as it is, the
  slash and the at sign among them.
\<close>

definition re_special :: "char list" where
  "re_special =
     ''()[]{}?*+-|^$.&~# '' @ [CHR 0x5C, CHR 0x09, CHR 0x0A, CHR 0x0D, CHR 0x0B, CHR 0x0C]"

definition re_escape :: "string \<Rightarrow> string" where
  "re_escape s = concat (map (\<lambda>c. if c \<in> set re_special then [CHR 0x5C, c] else [c]) s)"

text \<open>The program \<^verbatim>\<open>f"s/{re.escape(old)}/{re.escape(new)}/g"\<close> that a patch hands to perl.\<close>

definition subst_program :: "string \<Rightarrow> string \<Rightarrow> string" where
  "subst_program old new = ''s/'' @ re_escape old @ ''/'' @ re_escape new @ ''/g''"

text \<open>
  The files are a store from paths to contents. \<^verbatim>\<open>binary_replace(pattern, f)\<close> runs
  \<^verbatim>\<open>perl -p -i -e pattern f\<close> and raises when perl ends with a non-zero status. Perl is
  an external tool and a parameter here: from the program and the content of the file
  (\<open>None\<close> when the file does not exist) it gives the content it leaves, or the error.
\<close>

type_synonym files = "path \<rightharpoonup> string"

type_synonym perl = "string \<Rightarrow> string option \<Rightarrow> error + string option"

definition binary_replace :: "perl \<Rightarrow> string \<Rightarrow> path \<Rightarrow> files \<Rightarrow> error + files" where
  "binary_replace perl pattern f fs =
     bind_result (perl pattern (fs f)) (\<lambda>content. Inr (fs(f := content)))"

text \<open>A \<^verbatim>\<open>for\<close> loop whose body may raise: the first error ends it.\<close>

fun for_each :: "('a \<Rightarrow> 's \<Rightarrow> error + 's) \<Rightarrow> 'a list \<Rightarrow> 's \<Rightarrow> error + 's" where
  "for_each body [] s = Inr s"
| "for_each body (x # xs) s = bind_result (body x s) (for_each body xs)"

text \<open>
  \<^verbatim>\<open>
  targets = [xcode_entitlements_plist]
  if opts.patch_ids:
      targets.append(component_bin)
      targets.append(info_plist)
  for target in targets:
      for old, new in patches.items():
          binary_replace(f"s/{re.escape(old)}/{re.escape(new)}/g", target)
  \<close>
  \<open>patches\<close> is the dictionary in insertion order.
\<close>

definition patch_targets :: "SignOpts \<Rightarrow> path \<Rightarrow> path \<Rightarrow> path \<Rightarrow> path list" where
  "patch_targets opts xcode_entitlements_plist component_bin info_plist =
     (if patch_ids opts then [xcode_entitlements_plist, component_bin, info_plist]
      else [xcode_entitlements_plist])"

definition apply_patches ::
  "perl \<Rightarrow> (string \<times> string) list \<Rightarrow> path list \<Rightarrow> files \<Rightarrow> error + files" where
  "apply_patches perl patches targets fs =
     for_each
       (\<lambda>target. for_each
          (\<lambda>on. binary_replace perl (subst_program (fst on) (snd on)) target) patches)
       targets fs"

text \<open>
  The spec's words for a patch, \<open>exact literal substring replacement\<close>, written out to
  compare the code with: every occurrence of \<open>old\<close>, scanning from the left and not
  overlapping, becomes \<open>new\<close>. This is not a model of the code.
\<close>

function spec_literal_replace :: "string \<Rightarrow> string \<Rightarrow> string \<Rightarrow> string" where
  "spec_literal_replace old new [] = []"
| "spec_literal_replace old new (c # cs) =
     (if old \<noteq> [] \<and> prefix old (c # cs)
      then new @ spec_literal_replace old new (drop (length old) (c # cs))
      else c # spec_literal_replace old new cs)"
  by pat_completeness auto
termination
  by (relation "measure (\<lambda>(old, new, s). length s)") auto

section \<open>The end of \<^verbatim>\<open>sign_primary\<close>\<close>

definition force_all_devices :: "plist \<Rightarrow> error + plist" where
  "force_all_devices info_plist =
     (let p1 = plist_buddy_unchecked (Delete ''UISupportedDevices'') info_plist;
          p2 = plist_buddy_unchecked (Delete ''UIDeviceFamily'') p1
      in bind_result (plist_buddy_file (Add ''UIDeviceFamily'' (PArray [])) p2) (\<lambda>p3.
         bind_result (plist_buddy_file (AddItem ''UIDeviceFamily'' 0 (PScalar TInteger ''1'')) p3)
           (\<lambda>p4.
         plist_buddy_file (AddItem ''UIDeviceFamily'' 1 (PScalar TInteger ''2'')) p4)))"

definition force_file_sharing :: "plist \<Rightarrow> error + plist" where
  "force_file_sharing info_plist =
     (let p1 = plist_buddy_unchecked (Delete ''UIFileSharingEnabled'') info_plist
      in bind_result (plist_buddy_file (Add ''UIFileSharingEnabled'' (PScalar TBool ''true'')) p1)
           (\<lambda>p2.
         let p3 = plist_buddy_unchecked (Delete ''UISupportsDocumentBrowser'') p2
         in plist_buddy_file (Add ''UISupportsDocumentBrowser'' (PScalar TBool ''true'')) p3))"

text \<open>
  What \<^verbatim>\<open>sign_primary\<close> hands to \<^verbatim>\<open>codesign_async\<close>: the identity, the component and
  the entitlements file; with it, the manifest as the component now has it.
\<close>

record signing_call =
  identity :: string
  signed_component :: path
  entitlements :: plist
  manifest :: plist

text \<open>
  From \<^verbatim>\<open>if opts.force_original_id\<close> to the call of \<^verbatim>\<open>codesign_async\<close>. \<open>old_bundle_id\<close>
  was read from the manifest at the start of \<^verbatim>\<open>sign_primary\<close>, \<open>new_bundle_id\<close> is the
  computed \<^verbatim>\<open>bundle_id\<close>.
\<close>

definition sign_primary_finish ::
  "SignOpts \<Rightarrow> path \<Rightarrow> string \<Rightarrow> string \<Rightarrow> plist \<Rightarrow> plist \<Rightarrow> error + signing_call" where
  "sign_primary_finish opts component old_bundle_id new_bundle_id info_plist entitlements_plist =
     bind_result
       (if force_original_id opts
        then plist_buddy_file (Set ''CFBundleIdentifier'' old_bundle_id) info_plist
        else plist_buddy_file (Set ''CFBundleIdentifier'' new_bundle_id) info_plist)
       (\<lambda>info1.
     let e1 = plist_buddy_unchecked (Delete ''get-task-allow'') entitlements_plist in
     bind_result
       (if patch_debug opts
        then plist_buddy_file (Add ''get-task-allow'' (PScalar TBool ''true'')) e1
        else Inr e1)
       (\<lambda>e2.
     bind_result (if patch_all_devices opts then force_all_devices info1 else Inr info1)
       (\<lambda>info2.
     bind_result (if patch_file_sharing opts then force_file_sharing info2 else Inr info2)
       (\<lambda>info3.
     Inr \<lparr>identity = common_name opts, signed_component = component,
          entitlements = e2, manifest = info3\<rparr>))))"

text \<open>
  \<^verbatim>\<open>sign_primary\<close> as a whole. The branch without a provisioning profile drives Xcode;
  \<open>oracle\<close> stands for it: from the old and the computed identifier it gives the manifest
  as the patches leave it and the entitlements dumped from the built template, or the
  error that ended it.
\<close>

definition sign_primary ::
  "SignOpts \<Rightarrow> string \<Rightarrow> string \<Rightarrow> path \<Rightarrow> plist \<Rightarrow> error + plist
     \<Rightarrow> (string \<Rightarrow> string \<Rightarrow> error + (plist \<times> plist)) \<Rightarrow> error + signing_call" where
  "sign_primary opts main_bundle_id old_main_bundle_id component info_plist prov_entitlements
       oracle =
     bind_result (plist_buddy (Print ''CFBundleIdentifier'') info_plist) (\<lambda>r.
       let old_bundle_id = fst r;
           new_bundle_id = component_bundle_id main_bundle_id old_main_bundle_id old_bundle_id
       in bind_result
            (if prov_file opts \<noteq> None then
               bind_result (sign_primary_prov opts new_bundle_id prov_entitlements)
                 (\<lambda>lp. Inr (info_plist, snd lp))
             else oracle old_bundle_id new_bundle_id)
            (\<lambda>ie. sign_primary_finish opts component old_bundle_id new_bundle_id
                     (fst ie) (snd ie)))"

section \<open>Retrying a build step\<close>

text \<open>\<^verbatim>\<open>isinstance(e.__cause__, TimeoutExpired)\<close>.\<close>

definition is_timeout :: "error \<Rightarrow> bool" where
  "is_timeout e = (case e of TimedOut m \<Rightarrow> True | _ \<Rightarrow> False)"

text \<open>
  \<^verbatim>\<open>
  def exec_retry(name, func):
      start_time = time.time()
      last_error = None
      while time.time() - start_time < 90:
          try:
              return func()
          except Exception as e:
              if isinstance(e.__cause__, TimeoutExpired):
                  last_error = e
                  print(f"{name} timed out, retrying")
              else:
                  raise e
      raise Exception(f"{name} timed out too many times") from last_error
  \<close>
  The world \<open>'w\<close> holds the clock and whatever the step acts on: \<open>time\<close> reads the clock,
  \<open>func\<close> runs the step. The loop may run forever (a step that fails at once, on a clock
  that stands still), so not returning is the value \<open>None\<close>. The result is the value or the
  error, the printed lines and the world.
\<close>

partial_function (option) exec_retry_loop ::
  "('w \<Rightarrow> real \<times> 'w) \<Rightarrow> string \<Rightarrow> ('w \<Rightarrow> (error + 'r) \<times> 'w) \<Rightarrow> real \<Rightarrow> error option
     \<Rightarrow> string list \<Rightarrow> 'w \<Rightarrow> ((error + 'r) \<times> string list \<times> 'w) option" where
  "exec_retry_loop time name func start_time last_error out w =
     (case time w of (now, w1) \<Rightarrow>
        if now - start_time < 90 then
          (case func w1 of
             (Inr result, w2) \<Rightarrow> Some (Inr result, out, w2)
           | (Inl e, w2) \<Rightarrow>
               if is_timeout e then
                 exec_retry_loop time name func start_time (Some e)
                   (out @ [name @ '' timed out, retrying'']) w2
               else Some (Inl e, out, w2))
        else Some (Inl (Fatal (name @ '' timed out too many times'') last_error), out, w1))"

definition exec_retry ::
  "('w \<Rightarrow> real \<times> 'w) \<Rightarrow> string \<Rightarrow> ('w \<Rightarrow> (error + 'r) \<times> 'w) \<Rightarrow> 'w
     \<Rightarrow> ((error + 'r) \<times> string list \<times> 'w) option" where
  "exec_retry time name func w =
     (case time w of (start_time, w1) \<Rightarrow>
        exec_retry_loop time name func start_time None [] w1)"

text \<open>
  A course of the steps, to state what the retrying does: from the world \<open>w\<close> the steps
  fail with the timeouts \<open>es\<close>, one after the other, each started while the clock is below
  the deadline; the result is the world the last of them leaves.
\<close>

fun timed_out_attempts ::
  "('w \<Rightarrow> real \<times> 'w) \<Rightarrow> ('w \<Rightarrow> (error + 'r) \<times> 'w) \<Rightarrow> real \<Rightarrow> error list \<Rightarrow> 'w
     \<Rightarrow> 'w option" where
  "timed_out_attempts time func start_time [] w = Some w"
| "timed_out_attempts time func start_time (e # es) w =
     (case time w of (now, w1) \<Rightarrow>
        if now - start_time < 90 then
          (case func w1 of
             (Inr result, w2) \<Rightarrow> None
           | (Inl e', w2) \<Rightarrow>
               if e' = e \<and> is_timeout e then timed_out_attempts time func start_time es w2
               else None)
        else None)"

text \<open>
  A world to run the loop in: the clock and the outcomes still to come. A step takes the
  next outcome and 20 seconds, the timeout \<^verbatim>\<open>_xcode_archive\<close> and \<^verbatim>\<open>_xcode_export\<close> give
  \<^verbatim>\<open>run_process\<close>.
\<close>

type_synonym scripted = "real \<times> (error + nat) list"

definition scripted_time :: "scripted \<Rightarrow> real \<times> scripted" where
  "scripted_time w = (fst w, w)"

definition scripted_func :: "scripted \<Rightarrow> (error + nat) \<times> scripted" where
  "scripted_func w =
     (case snd w of
        [] \<Rightarrow> (Inl (ProcessError ''xcodebuild''), w)
      | r # rs \<Rightarrow> (r, (fst w + 20, rs)))"

section \<open>Components and the scheduling of their jobs\<close>

text \<open>
  A \<^verbatim>\<open>Popen\<close> handle: its arguments (the component), whether the process is still running
  when the scheduler polls it, and the status it ends with.
\<close>

record pipe =
  args :: path
  running :: bool
  returncode :: int

definition popen_check :: "pipe \<Rightarrow> error + unit" where
  "popen_check p =
     (if returncode p \<noteq> 0 then Inl (JobFailed (args p) (returncode p)) else Inr ())"

text \<open>
  \<^verbatim>\<open>Path.suffix\<close>: the last part from its last dot on, empty when the dot is missing, leads
  the name or ends it.
\<close>

definition path_suffix :: "path \<Rightarrow> string" where
  "path_suffix p =
     (if p = [] then []
      else let name = last p; ext = rev (takeWhile (\<lambda>c. c \<noteq> CHR ''.'') (rev name))
           in if CHR ''.'' \<in> set name \<and> ext \<noteq> [] \<and> length ext + 1 < length name
              then CHR ''.'' # ext else [])"

text \<open>
  \<^verbatim>\<open>
  component_exts = ["*.app", "*.appex", "*.framework", "*.dylib"]
  components = [item for e in component_exts for item in main_app.glob("**/" + e)][::-1]
  components.append(main_app)
  \<close>
  \<open>glob\<close> gives, for a pattern, what \<^verbatim>\<open>main_app.glob\<close> yields on the bundle at hand.
\<close>

definition component_exts :: "string list" where
  "component_exts = [''*.app'', ''*.appex'', ''*.framework'', ''*.dylib'']"

definition components :: "(string \<Rightarrow> path list) \<Rightarrow> path \<Rightarrow> path list" where
  "components glob main_app =
     rev (concat (map (\<lambda>e. glob (''**/'' @ e)) component_exts)) @ [main_app]"

text \<open>
  What the scheduler does, in order: it starts a component's job, it blocks on a job
  that is still running, it checks a finished job's status.
\<close>

datatype event = Dispatched path | Waited path | Checked path

text \<open>The dictionary \<^verbatim>\<open>jobs\<close>, in insertion order.\<close>

type_synonym jobs = "(path \<times> pipe) list"

definition jobs_set :: "jobs \<Rightarrow> path \<Rightarrow> pipe \<Rightarrow> jobs" where
  "jobs_set js k v =
     (if k \<in> fst ` set js then map (\<lambda>kv. if fst kv = k then (k, v) else kv) js
      else js @ [(k, v)])"

text \<open>
  The inner loop, over the jobs in flight before \<open>component\<close> is dispatched.
  \<^verbatim>\<open>path.relative_to(component)\<close> raises unless the parts of \<open>component\<close> lead those of
  \<open>path\<close>; such a job stays. Another is waited for when still running, checked and
  removed. The result is the jobs left and the events.
\<close>

fun wait_contained :: "path \<Rightarrow> jobs \<Rightarrow> error + (jobs \<times> event list)" where
  "wait_contained component [] = Inr ([], [])"
| "wait_contained component ((p, pp) # rest) =
     (if \<not> prefix component p then
        bind_result (wait_contained component rest) (\<lambda>r. Inr ((p, pp) # fst r, snd r))
      else
        bind_result (popen_check pp) (\<lambda>u.
        bind_result (wait_contained component rest) (\<lambda>r.
          Inr (fst r, (if running pp then [Waited p] else []) @ [Checked p] @ snd r))))"

text \<open>
  The loop over the components. \<open>primary\<close> and \<open>secondary\<close> give the handle that
  \<^verbatim>\<open>sign_primary\<close> and \<^verbatim>\<open>sign_secondary\<close> return for a component, or the error they raise.
  The removal of a leftover \<^verbatim>\<open>SC_Info\<close> directory starts no job and is left out.
\<close>

fun dispatch_all :: "(path \<Rightarrow> error + pipe) \<Rightarrow> (path \<Rightarrow> error + pipe) \<Rightarrow> path list \<Rightarrow> jobs
    \<Rightarrow> error + (jobs \<times> event list)" where
  "dispatch_all primary secondary [] js = Inr (js, [])"
| "dispatch_all primary secondary (component # rest) js =
     bind_result (wait_contained component js) (\<lambda>r1.
     bind_result
       (if path_suffix component \<in> {''.appex'', ''.app''}
        then primary component else secondary component) (\<lambda>pp.
     bind_result (dispatch_all primary secondary rest (jobs_set (fst r1) component pp))
       (\<lambda>r2. Inr (fst r2, snd r1 @ [Dispatched component] @ snd r2))))"

text \<open>The last loop: every job left is waited for and checked.\<close>

fun wait_remaining :: "jobs \<Rightarrow> error + event list" where
  "wait_remaining [] = Inr []"
| "wait_remaining ((p, pp) # rest) =
     bind_result (popen_check pp) (\<lambda>u.
     bind_result (wait_remaining rest) (\<lambda>ev. Inr ([Waited p, Checked p] @ ev)))"

definition sign_components ::
  "(path \<Rightarrow> error + pipe) \<Rightarrow> (path \<Rightarrow> error + pipe) \<Rightarrow> path list \<Rightarrow> error + event list" where
  "sign_components primary secondary cs =
     bind_result (dispatch_all primary secondary cs []) (\<lambda>r.
     bind_result (wait_remaining (fst r)) (\<lambda>ev. Inr (snd r @ ev)))"

section \<open>Inputs for evaluation\<close>

text \<open>
  A session with a provisioning profile whose application identifier is asked for, that
  keeps the original identifier in the manifest.
\<close>

definition example_opts :: SignOpts where
  "example_opts =
     \<lparr>app_dir = [''work''], common_name = ''iPhone Distribution: Test'', team_id = ''TEAMID'',
      prov_file = Some [''work'', ''prov.mobileprovision''], bundle_id = Some [],
      bundle_name = None, patch_debug = False, patch_all_devices = True,
      patch_file_sharing = True, encode_ids = True, patch_ids = False,
      force_original_id = True\<rparr>"

definition example_info_plist :: plist where
  "example_info_plist =
     [''CFBundleIdentifier'' \<mapsto> PScalar TString ''com.example.app'',
      ''UIDeviceFamily'' \<mapsto> PArray [PScalar TInteger ''1'']]"

definition example_prov_entitlements :: plist where
  "example_prov_entitlements =
     [''application-identifier'' \<mapsto> PScalar TString ''TEAMID.com.example.*'',
      ''get-task-allow'' \<mapsto> PScalar TBool ''true'']"

definition no_oracle :: "string \<Rightarrow> string \<Rightarrow> error + (plist \<times> plist)" where
  "no_oracle old_bundle_id new_bundle_id = Inl (ProcessError ''xcodebuild'')"

text \<open>
  A bundle with an application nested in an extension, the layout of a WatchKit 1
  application: \<^verbatim>\<open>Payload/Main.app/PlugIns/Ext.appex/Watch.app\<close>. \<open>watch_glob\<close> is what
  \<^verbatim>\<open>main_app.glob\<close> yields on it. Every job is still running when polled and ends with
  status 0.
\<close>

definition watch_main_app :: path where
  "watch_main_app = [''Payload'', ''Main.app'']"

definition watch_ext :: path where
  "watch_ext = [''Payload'', ''Main.app'', ''PlugIns'', ''Ext.appex'']"

definition watch_app :: path where
  "watch_app = [''Payload'', ''Main.app'', ''PlugIns'', ''Ext.appex'', ''Watch.app'']"

definition watch_glob :: "string \<Rightarrow> path list" where
  "watch_glob pat =
     (if pat = ''**/*.app'' then [watch_app]
      else if pat = ''**/*.appex'' then [watch_ext]
      else [])"

definition running_job :: "path \<Rightarrow> error + pipe" where
  "running_job component = Inr \<lparr>args = component, running = True, returncode = 0\<rparr>"

section \<open>Theorems\<close>

text \<open>
  C8. For a primary component whose original bundle identifier begins with the original
  main bundle identifier, the computed identifier is the new main bundle identifier
  followed by the rest of the original identifier, unchanged.
\<close>

theorem component_bundle_id_keeps_suffix:
  assumes "prefix old_main_bundle_id old_bundle_id"
  shows "\<exists>suffix. old_bundle_id = old_main_bundle_id @ suffix \<and>
           component_bundle_id main_bundle_id old_main_bundle_id old_bundle_id =
             main_bundle_id @ suffix"
  using assms by (auto simp: component_bundle_id_def prefix_def)

theorem component_bundle_id_keeps_suffix_witness:
  "prefix ''com.example.app'' ''com.example.app.share'' \<and>
   component_bundle_id ''org.new.id'' ''com.example.app'' ''com.example.app.share'' =
     ''org.new.id.share''"
  using component_bundle_id_keeps_suffix
    [of "''com.example.app''" "''com.example.app.share''" "''org.new.id''"]
  by (simp add: component_bundle_id_def)

subsection \<open>Facts about PlistBuddy\<close>

lemma unlines_scalar: "unlines (render_lines (PScalar t s)) = s"
  by simp

lemma unchecked_Delete: "plist_buddy_unchecked (Delete k) p = p(k := None)"
  by (auto simp: plist_buddy_unchecked_def split: option.splits)

lemma unchecked_Set:
  "plist_buddy_unchecked (Set k v) p =
     (case p k of Some (PScalar t old) \<Rightarrow> p(k \<mapsto> PScalar t v) | _ \<Rightarrow> p)"
  by (auto simp: plist_buddy_unchecked_def split: option.splits pvalue.splits)

lemma Add_after_Delete:
  "plist_buddy_file (Add k v) (p(k := None)) = Inr (p(k \<mapsto> v))"
  by (simp add: plist_buddy_file_def bind_result_def)

lemma Set_scalar:
  "p k = Some (PScalar t old) \<Longrightarrow> plist_buddy_file (Set k v) p = Inr (p(k \<mapsto> PScalar t v))"
  by (simp add: plist_buddy_file_def bind_result_def)

lemma Set_succeeds:
  "plist_buddy_file (Set k v) p = Inr p' \<Longrightarrow>
     \<exists>t old. p k = Some (PScalar t old) \<and> p' = p(k \<mapsto> PScalar t v)"
  by (auto simp: plist_buddy_file_def bind_result_def split: option.splits pvalue.splits)

lemma Print_succeeds:
  "plist_buddy (Print k) p = Inr r \<Longrightarrow> \<exists>v. p k = Some v \<and> r = (unlines (render_lines v), p)"
  by (auto split: option.splits)

lemma force_all_devices_result:
  "force_all_devices p =
     Inr (p(''UISupportedDevices'' := None,
            ''UIDeviceFamily'' \<mapsto> PArray [PScalar TInteger ''1'', PScalar TInteger ''2'']))"
  by (simp add: force_all_devices_def unchecked_Delete Add_after_Delete
      plist_buddy_file_def bind_result_def)

lemma force_file_sharing_result:
  "force_file_sharing p =
     Inr (p(''UIFileSharingEnabled'' \<mapsto> PScalar TBool ''true'',
            ''UISupportsDocumentBrowser'' \<mapsto> PScalar TBool ''true''))"
  by (simp add: force_file_sharing_def unchecked_Delete Add_after_Delete
      plist_buddy_file_def bind_result_def)

lemma fold_Delete:
  "fold (\<lambda>item. plist_buddy_unchecked (Delete item)) ks p = p |` (- set ks)"
  by (induction ks arbitrary: p) (auto simp: unchecked_Delete restrict_map_def fun_eq_iff)

lemma Set_twice:
  "plist_buddy_unchecked (Set k v) (plist_buddy_unchecked (Set k v) p) =
     plist_buddy_unchecked (Set k v) p"
  by (auto simp: unchecked_Set split: option.splits pvalue.splits)

lemma Set_Set_commute:
  "k \<noteq> k' \<Longrightarrow>
     plist_buddy_unchecked (Set k v) (plist_buddy_unchecked (Set k' v') p) =
     plist_buddy_unchecked (Set k' v') (plist_buddy_unchecked (Set k v) p)"
  by (auto simp: unchecked_Set fun_eq_iff split: option.splits pvalue.splits)

lemma Set_restrict_commute:
  "k \<notin> ks \<Longrightarrow>
     (plist_buddy_unchecked (Set k v) p) |` (- ks) =
     plist_buddy_unchecked (Set k v) (p |` (- ks))"
  by (auto simp: unchecked_Set restrict_map_def fun_eq_iff split: option.splits pvalue.splits)

subsection \<open>The end of \<^verbatim>\<open>sign_primary\<close>\<close>

lemma sign_primary_finish_succeeds:
  assumes "sign_primary_finish opts component old_bundle_id new_bundle_id info_plist
             entitlements_plist = Inr call"
  shows "\<exists>t current. info_plist ''CFBundleIdentifier'' = Some (PScalar t current) \<and>
           manifest call ''CFBundleIdentifier'' =
             Some (PScalar t (if force_original_id opts then old_bundle_id else new_bundle_id))"
    and "entitlements call =
           (if patch_debug opts
            then entitlements_plist(''get-task-allow'' \<mapsto> PScalar TBool ''true'')
            else entitlements_plist(''get-task-allow'' := None))"
proof -
  let ?v = "if force_original_id opts then old_bundle_id else new_bundle_id"
  from assms obtain info1 where
    set: "plist_buddy_file (Set ''CFBundleIdentifier'' ?v) info_plist = Inr info1"
    by (auto simp: sign_primary_finish_def bind_result_def split: sum.splits if_splits)
  then obtain t current where
    cur: "info_plist ''CFBundleIdentifier'' = Some (PScalar t current)"
    and info1: "info1 = info_plist(''CFBundleIdentifier'' \<mapsto> PScalar t ?v)"
    using Set_succeeds by blast
  from assms set have call: "call =
      \<lparr>identity = common_name opts, signed_component = component,
        entitlements =
          (if patch_debug opts
           then entitlements_plist(''get-task-allow'' \<mapsto> PScalar TBool ''true'')
           else entitlements_plist(''get-task-allow'' := None)),
        manifest =
          (let info2 = (if patch_all_devices opts
                        then info1(''UISupportedDevices'' := None,
                               ''UIDeviceFamily'' \<mapsto>
                                 PArray [PScalar TInteger ''1'', PScalar TInteger ''2''])
                        else info1)
           in if patch_file_sharing opts
              then info2(''UIFileSharingEnabled'' \<mapsto> PScalar TBool ''true'',
                     ''UISupportsDocumentBrowser'' \<mapsto> PScalar TBool ''true'')
              else info2)\<rparr>"
    by (auto simp: sign_primary_finish_def bind_result_def unchecked_Delete Add_after_Delete
        force_all_devices_result force_file_sharing_result Let_def split: if_splits)
  show "entitlements call =
           (if patch_debug opts
            then entitlements_plist(''get-task-allow'' \<mapsto> PScalar TBool ''true'')
            else entitlements_plist(''get-task-allow'' := None))"
    by (simp add: call)
  have "manifest call ''CFBundleIdentifier'' = Some (PScalar t ?v)"
    by (simp add: call info1 Let_def)
  with cur show "\<exists>t current. info_plist ''CFBundleIdentifier'' = Some (PScalar t current) \<and>
           manifest call ''CFBundleIdentifier'' =
             Some (PScalar t (if force_original_id opts then old_bundle_id else new_bundle_id))"
    by blast
qed

lemma sign_primary_succeeds:
  assumes "sign_primary opts main_bundle_id old_main_bundle_id component info_plist
             prov_entitlements oracle = Inr call"
  shows "\<exists>old_bundle_id info1 entitlements1.
           plist_buddy (Print ''CFBundleIdentifier'') info_plist = Inr (old_bundle_id, info_plist) \<and>
           sign_primary_finish opts component old_bundle_id
             (component_bundle_id main_bundle_id old_main_bundle_id old_bundle_id)
             info1 entitlements1 = Inr call"
  using assms
  by (auto simp: sign_primary_def bind_result_def Let_def
      split: sum.splits option.splits if_splits) blast+

subsection \<open>The main bundle identifier\<close>

lemma dropWhile_to_dot:
  "CHR ''.'' \<notin> set team \<Longrightarrow>
     dropWhile (\<lambda>c. c \<noteq> CHR ''.'') (team @ CHR ''.'' # rest) = CHR ''.'' # rest"
  by (induction team) auto

lemma after_first_dot_team:
  "CHR ''.'' \<notin> set team \<Longrightarrow> after_first_dot (team @ ''.'' @ rest) = rest"
  by (simp add: after_first_dot_def dropWhile_to_dot)

text \<open>
  C4. When the main bundle identifier is to come from the provisioning profile (a profile
  is given and the bundle identifier option is the empty string) and the profile's
  application identifier is a team identifier, a dot and a rest, the team prefix is
  stripped: the result is the rest, unless the rest has a wildcard; then it is the
  original identifier, a line saying so is printed, and the resolution does not fail.
\<close>

theorem wildcard_profile_falls_back:
  assumes "prov_file opts = Some pf" and "bundle_id opts = Some []"
    and "prov_entitlements ''application-identifier'' = Some (PScalar t (team @ ''.'' @ rest))"
    and "CHR ''.'' \<notin> set team"
  shows "resolve_main_bundle_id gen_id opts old_main_bundle_id (Inr prov_entitlements) =
     (if CHR ''*'' \<in> set rest
      then Inr ([''Using provisioning profile's application id'',
                 ''Provisioning profile is wildcard, using original bundle id''],
                old_main_bundle_id)
      else Inr ([''Using provisioning profile's application id''], rest))"
  using assms after_first_dot_team [of team rest]
  by (simp add: resolve_main_bundle_id_def bind_result_def Let_def)

theorem wildcard_profile_falls_back_witness:
  "resolve_main_bundle_id (\<lambda>i seed. seed) example_opts ''com.original.app''
     (Inr example_prov_entitlements) =
   Inr ([''Using provisioning profile's application id'',
         ''Provisioning profile is wildcard, using original bundle id''],
        ''com.original.app'')"
  using wildcard_profile_falls_back
    [of example_opts "[''work'', ''prov.mobileprovision'']" example_prov_entitlements TString
        "''TEAMID''" "''com.example.*''" "\<lambda>i seed. seed" "''com.original.app''"]
  by (simp add: example_opts_def example_prov_entitlements_def)

subsection \<open>A provisioning profile that does not match\<close>

text \<open>
  C5. With a provisioning profile whose application identifier is a string: when it is
  neither the component's application identifier (team identifier, a dot, the computed
  bundle identifier) nor a wildcard, the step does not fail, prints the warning and
  leaves the entitlements as the profile gave them; when it is equal or a wildcard, the
  application identifier of the entitlements becomes the component's.
\<close>

theorem prov_app_id_mismatch_is_warning:
  assumes "prov_entitlements ''application-identifier'' = Some (PScalar t prov_app_id)"
  shows "sign_primary_prov opts new_bundle_id (Inr prov_entitlements) =
     (if prov_app_id = team_id opts @ ''.'' @ new_bundle_id \<or> CHR ''*'' \<in> set prov_app_id
      then Inr ([], prov_entitlements(''application-identifier'' \<mapsto>
                      PScalar t (team_id opts @ ''.'' @ new_bundle_id)))
      else Inr ([mismatch_warning prov_app_id (team_id opts @ ''.'' @ new_bundle_id)],
                prov_entitlements))"
  using assms
  by (simp add: sign_primary_prov_def bind_result_def plist_buddy_file_def Let_def)

theorem prov_app_id_mismatch_is_warning_witness:
  "sign_primary_prov example_opts ''com.example.app''
     (Inr [''application-identifier'' \<mapsto> PScalar TString ''OTHER.org.else'']) =
   Inr ([mismatch_warning ''OTHER.org.else'' ''TEAMID.com.example.app''],
        [''application-identifier'' \<mapsto> PScalar TString ''OTHER.org.else''])"
  using prov_app_id_mismatch_is_warning
    [of "[''application-identifier'' \<mapsto> PScalar TString ''OTHER.org.else'']" TString
        "''OTHER.org.else''" example_opts "''com.example.app''"]
  by (simp add: example_opts_def)

subsection \<open>Stripping entitlements\<close>

text \<open>
  C9. Stripping is idempotent: the deletions and the two demotions, applied to a manifest
  they were already applied to, change nothing.
\<close>

theorem strip_entitlements_idempotent:
  "strip_entitlements (strip_entitlements p) = strip_entitlements p"
proof -
  define q where "q = p |` (- set strip_items)"
  define S1 where "S1 = plist_buddy_unchecked
    (Set ''com.apple.developer.icloud-container-environment'' ''Development'')"
  define S2 where "S2 = plist_buddy_unchecked (Set ''aps-environment'' ''development'')"
  have strip: "strip_entitlements r = S2 (S1 (r |` (- set strip_items)))" for r
    by (simp add: strip_entitlements_def fold_Delete demote_items_def S1_def S2_def)
  have k1: "''com.apple.developer.icloud-container-environment'' \<notin> set strip_items"
    by (simp add: strip_items_def)
  have k2: "''aps-environment'' \<notin> set strip_items"
    by (simp add: strip_items_def)
  have "S2 (S1 q) |` (- set strip_items) = S2 (S1 (q |` (- set strip_items)))"
    unfolding S1_def S2_def by (simp add: Set_restrict_commute k1 k2)
  also have "q |` (- set strip_items) = q"
    by (simp add: q_def)
  finally have "strip_entitlements (strip_entitlements p) = S2 (S1 (S2 (S1 q)))"
    by (simp add: strip q_def)
  also have "S1 (S2 (S1 q)) = S2 (S1 (S1 q))"
    unfolding S1_def S2_def by (rule Set_Set_commute) simp
  also have "S1 (S1 q) = S1 q"
    unfolding S1_def by (rule Set_twice)
  also have "S2 (S2 (S1 q)) = S2 (S1 q)"
    unfolding S2_def by (rule Set_twice)
  finally show ?thesis
    by (simp add: strip q_def)
qed

subsection \<open>The memo table\<close>

lemma remap_keeps: "mappings k = Some v \<Longrightarrow> remap gen_id opts remap_id mappings k = Some v"
  by (auto simp: remap_def split: option.splits)

lemma remap_all_keeps:
  "mappings k = Some v \<Longrightarrow> remap_all gen_id opts remap_ids mappings k = Some v"
  unfolding remap_all_def
  by (induction remap_ids arbitrary: mappings) (simp_all add: remap_keeps)

lemma remap_stores:
  "mappings k = None \<Longrightarrow>
     remap gen_id opts k mappings k =
       Some (if encode_ids opts then gen_id k (remap_seed opts k) else k)"
  by (simp add: remap_def)

lemma remap_all_has:
  "k \<in> set remap_ids \<Longrightarrow> remap_all gen_id opts remap_ids mappings k \<noteq> None"
  unfolding remap_all_def
proof (induction remap_ids arbitrary: mappings)
  case Nil
  then show ?case by simp
next
  case (Cons a remap_ids)
  show ?case
  proof (cases "a = k")
    case True
    have "remap gen_id opts k mappings k \<noteq> None"
      by (auto simp: remap_def split: option.splits)
    then obtain v where "remap gen_id opts k mappings k = Some v"
      by blast
    then have "remap_all gen_id opts remap_ids (remap gen_id opts k mappings) k = Some v"
      by (rule remap_all_keeps [where mappings = "remap gen_id opts k mappings" and k = k])
    with True show ?thesis
      by (simp add: remap_all_def)
  next
    case False
    with Cons show ?thesis by simp
  qed
qed

text \<open>
  C2. The memo table is first-seen-wins. The first request for an identifier stores its
  replacement (the encoding under the seed of that request, or the identifier itself
  when encoding is off). Once an identifier has an entry, every later run of the loop,
  from any component, with any options, encoder and identifiers, leaves that entry as
  it is, and a request for the identifier reads the stored replacement.
\<close>

theorem memo_first_seen_wins:
  "(mappings k = None \<longrightarrow>
      remap gen_id opts k mappings k =
        Some (if encode_ids opts then gen_id k (remap_seed opts k) else k)) \<and>
   (mappings k = Some v \<longrightarrow>
      remap gen_id' opts' k mappings = mappings \<and>
      remap_all gen_id' opts' remap_ids mappings k = Some v) \<and>
   remap_all gen_id' opts' remap_ids (remap gen_id opts k mappings) k =
     remap gen_id opts k mappings k"
proof -
  have "remap gen_id opts k mappings k \<noteq> None"
    by (auto simp: remap_def split: option.splits)
  then obtain x where x: "remap gen_id opts k mappings k = Some x"
    by blast
  then have "remap_all gen_id' opts' remap_ids (remap gen_id opts k mappings) k = Some x"
    by (rule remap_all_keeps [where mappings = "remap gen_id opts k mappings" and k = k])
  with x have
    "remap_all gen_id' opts' remap_ids (remap gen_id opts k mappings) k =
       remap gen_id opts k mappings k"
    by simp
  then show ?thesis
    by (auto simp: remap_stores remap_all_keeps) (simp add: remap_def)
qed

theorem memo_first_seen_wins_witness:
  "remap (\<lambda>i seed. seed) example_opts ''group.a'' Map.empty ''group.a'' = Some ''group.aTEAMID'' \<and>
   remap_all (\<lambda>i seed. i) (example_opts\<lparr>bundle_id := Some ''x.y'', team_id := ''T2''\<rparr>)
     [''group.b'', ''group.a'']
     [''group.a'' \<mapsto> ''group.aTEAMID''] ''group.a'' = Some ''group.aTEAMID''"
  using memo_first_seen_wins
    [of Map.empty "''group.a''" "\<lambda>i seed. seed" example_opts "''group.aTEAMID''"
        "\<lambda>i seed. i" "example_opts\<lparr>bundle_id := Some ''x.y'', team_id := ''T2''\<rparr>"
        "[''group.b'', ''group.a'']"]
    memo_first_seen_wins
    [of "[''group.a'' \<mapsto> ''group.aTEAMID'']" "''group.a''" "\<lambda>i seed. seed" example_opts
        "''group.aTEAMID''"
        "\<lambda>i seed. i" "example_opts\<lparr>bundle_id := Some ''x.y'', team_id := ''T2''\<rparr>"
        "[''group.b'', ''group.a'']"]
  by (simp add: example_opts_def remap_seed_def truthy_def)

subsection \<open>Patching identifiers\<close>

lemma for_each_keeps:
  "(\<And>x u u'. x \<in> set xs \<Longrightarrow> body x u = Inr u' \<Longrightarrow> P u' = P u) \<Longrightarrow>
     for_each body xs s = Inr s' \<Longrightarrow> P s' = P s"
proof (induction xs arbitrary: s)
  case Nil
  then show ?case by simp
next
  case (Cons x xs)
  from Cons.prems(2) obtain s1 where
    b: "body x s = Inr s1" and r: "for_each body xs s1 = Inr s'"
    by (auto simp: bind_result_def split: sum.splits)
  have step: "\<And>y u u'. y \<in> set xs \<Longrightarrow> body y u = Inr u' \<Longrightarrow> P u' = P u"
    by (rule Cons.prems(1)) auto
  have "P s1 = P s"
    using Cons.prems(1) [of x s s1] b by simp
  moreover have "P s' = P s1"
    using step r by (rule Cons.IH)
  ultimately show ?case by simp
qed

lemma for_each_single: "for_each body [x] = body x"
  by (rule ext) (simp add: bind_result_def split: sum.splits)

lemma binary_replace_other_file:
  "binary_replace perl pattern target fs = Inr fs' \<Longrightarrow> f \<noteq> target \<Longrightarrow> fs' f = fs f"
  by (auto simp: binary_replace_def bind_result_def split: sum.splits)

text \<open>
  Whatever perl does, the patches touch the target files only: a run of the patches that
  ends without error leaves every other file with its content. With \<open>patch_ids\<close> unset
  the only target is the entitlements file of the template.
\<close>

lemma apply_patches_other_file:
  assumes "apply_patches perl patches targets fs = Inr fs'" and "f \<notin> set targets"
  shows "fs' f = fs f"
proof -
  have "(\<lambda>s. s f) fs' = (\<lambda>s. s f) fs"
  proof (rule for_each_keeps [where P = "\<lambda>s. s f"])
    show "for_each
       (\<lambda>target. for_each
          (\<lambda>on. binary_replace perl (subst_program (fst on) (snd on)) target) patches)
       targets fs = Inr fs'"
      using assms(1) by (simp add: apply_patches_def)
  next
    fix target s s'
    assume t: "target \<in> set targets"
      and r: "for_each (\<lambda>on. binary_replace perl (subst_program (fst on) (snd on)) target)
                patches s = Inr s'"
    from t assms(2) have ne: "f \<noteq> target" by blast
    show "s' f = s f"
    proof (rule for_each_keeps [where P = "\<lambda>s. s f", OF _ r])
      fix on u u'
      assume "binary_replace perl (subst_program (fst on) (snd on)) target u = Inr u'"
      from binary_replace_other_file [OF this ne] show "u' f = u f" .
    qed
  qed
  then show ?thesis by simp
qed

lemma patch_targets_unset:
  "\<not> patch_ids opts \<Longrightarrow>
     patch_targets opts xcode_entitlements_plist component_bin info_plist =
       [xcode_entitlements_plist]"
  by (simp add: patch_targets_def)

lemma patches_leave_binary_and_manifest:
  assumes "\<not> patch_ids opts"
    and "apply_patches perl patches
           (patch_targets opts xcode_entitlements_plist component_bin info_plist) fs = Inr fs'"
    and "f \<noteq> xcode_entitlements_plist"
  shows "fs' f = fs f"
  using apply_patches_other_file [OF assms(2)] assms(1,3)
  by (simp add: patch_targets_def)

lemma re_escape_append: "re_escape (a @ b) = re_escape a @ re_escape b"
  by (simp add: re_escape_def)

text \<open>
  C7. The patch is not a literal substitution for every pair. A slash in an identifier
  reaches perl unescaped, where it ends the pattern: the program for replacing
  \<^verbatim>\<open>com.a/b\<close> by \<^verbatim>\<open>org.x\<close> is the program for replacing \<^verbatim>\<open>com.a\<close> by \<^verbatim>\<open>b/org.x\<close>, and
  the patches do the same to every file for both pairs. Literal replacement tells the two
  apart on the text \<^verbatim>\<open>id com.a\<close>, so whatever perl does with the program, the patch is not
  the literal replacement for both.
\<close>

theorem slash_in_identifier_is_not_escaped:
  "subst_program ''com.a/b'' ''org.x'' =
     ''s/com'' @ [CHR 0x5C] @ ''.a/b/org'' @ [CHR 0x5C] @ ''.x/g'' \<and>
   subst_program ''com.a/b'' ''org.x'' = subst_program ''com.a'' ''b/org.x'' \<and>
   apply_patches perl [(''com.a/b'', ''org.x'')] targets fs =
     apply_patches perl [(''com.a'', ''b/org.x'')] targets fs \<and>
   spec_literal_replace ''com.a/b'' ''org.x'' ''id com.a'' = ''id com.a'' \<and>
   spec_literal_replace ''com.a'' ''b/org.x'' ''id com.a'' = ''id b/org.x'' \<and>
   \<not> (\<forall>old new content.
        perl (subst_program old new) (Some content) =
          Inr (Some (spec_literal_replace old new content)))"
proof -
  have p1: "subst_program ''com.a/b'' ''org.x'' =
     ''s/com'' @ [CHR 0x5C] @ ''.a/b/org'' @ [CHR 0x5C] @ ''.x/g''"
    by (simp add: subst_program_def re_escape_def re_special_def)
  have p2: "subst_program ''com.a'' ''b/org.x'' =
     ''s/com'' @ [CHR 0x5C] @ ''.a/b/org'' @ [CHR 0x5C] @ ''.x/g''"
    by (simp add: subst_program_def re_escape_def re_special_def)
  have same: "subst_program ''com.a/b'' ''org.x'' = subst_program ''com.a'' ''b/org.x''"
    by (simp only: p1 p2)
  have ap: "apply_patches perl [(''com.a/b'', ''org.x'')] targets fs =
     apply_patches perl [(''com.a'', ''b/org.x'')] targets fs"
    unfolding apply_patches_def by (simp only: for_each_single fst_conv snd_conv same)
  have l1: "spec_literal_replace ''com.a/b'' ''org.x'' ''id com.a'' = ''id com.a''"
    by simp
  have l2: "spec_literal_replace ''com.a'' ''b/org.x'' ''id com.a'' = ''id b/org.x''"
    by simp
  have no: "\<not> (\<forall>old new content.
        perl (subst_program old new) (Some content) =
          Inr (Some (spec_literal_replace old new content)))"
  proof
    assume lit: "\<forall>old new content.
        perl (subst_program old new) (Some content) =
          Inr (Some (spec_literal_replace old new content))"
    from lit have "perl (subst_program ''com.a/b'' ''org.x'') (Some ''id com.a'') =
        Inr (Some (spec_literal_replace ''com.a/b'' ''org.x'' ''id com.a''))"
      by blast
    moreover from lit have "perl (subst_program ''com.a'' ''b/org.x'') (Some ''id com.a'') =
        Inr (Some (spec_literal_replace ''com.a'' ''b/org.x'' ''id com.a''))"
      by blast
    ultimately have "spec_literal_replace ''com.a/b'' ''org.x'' ''id com.a'' =
        spec_literal_replace ''com.a'' ''b/org.x'' ''id com.a''"
      by (simp only: same sum.inject option.inject)
    then show False
      by (simp only: l1 l2) simp
  qed
  from p1 same ap l1 l2 no show ?thesis
    by (simp only: simp_thms)
qed

subsection \<open>The identifier written to the manifest, and debugging\<close>

text \<open>
  C6. In every run of \<^verbatim>\<open>sign_primary\<close> that reaches the signing call, the identifier
  printed from the final manifest is, with \<open>force_original_id\<close>, the identifier printed
  from the manifest before signing, and without it the computed identifier; and
  \<^verbatim>\<open>bundle_id.txt\<close> holds the original main identifier with the flag and the chosen main
  identifier without it.
\<close>

theorem force_original_id_keeps_identifier:
  assumes "sign_primary opts main_bundle_id old_main_bundle_id component info_plist
             prov_entitlements oracle = Inr call"
  shows "\<exists>old_bundle_id.
           plist_buddy (Print ''CFBundleIdentifier'') info_plist = Inr (old_bundle_id, info_plist) \<and>
           plist_buddy (Print ''CFBundleIdentifier'') (manifest call) =
             Inr (if force_original_id opts then old_bundle_id
                  else component_bundle_id main_bundle_id old_main_bundle_id old_bundle_id,
                  manifest call) \<and>
           bundle_id_txt opts old_main_bundle_id main_bundle_id =
             (if force_original_id opts then old_main_bundle_id else main_bundle_id)"
proof -
  from sign_primary_succeeds [OF assms] obtain old_bundle_id info1 entitlements1 where
    pr: "plist_buddy (Print ''CFBundleIdentifier'') info_plist = Inr (old_bundle_id, info_plist)"
    and fin: "sign_primary_finish opts component old_bundle_id
             (component_bundle_id main_bundle_id old_main_bundle_id old_bundle_id)
             info1 entitlements1 = Inr call"
    by blast
  from sign_primary_finish_succeeds(1) [OF fin] obtain t where
    "manifest call ''CFBundleIdentifier'' =
       Some (PScalar t (if force_original_id opts then old_bundle_id
          else component_bundle_id main_bundle_id old_main_bundle_id old_bundle_id))"
    by blast
  then have "plist_buddy (Print ''CFBundleIdentifier'') (manifest call) =
             Inr (if force_original_id opts then old_bundle_id
                  else component_bundle_id main_bundle_id old_main_bundle_id old_bundle_id,
                  manifest call)"
    by simp
  with pr show ?thesis
    by (simp add: bundle_id_txt_def)
qed

lemma example_sign_primary_runs:
  "\<exists>call. sign_primary (example_opts\<lparr>force_original_id := f, patch_debug := d\<rparr>)
     ''org.new.id'' ''com.example'' [''Payload'', ''A.app''] example_info_plist
     (Inr example_prov_entitlements) no_oracle = Inr call"
  by (simp add: sign_primary_def sign_primary_prov_def sign_primary_finish_def example_opts_def
      example_info_plist_def example_prov_entitlements_def bind_result_def Let_def
      plist_buddy_file_def unchecked_Delete force_all_devices_result force_file_sharing_result)

theorem force_original_id_keeps_identifier_witness:
  "\<exists>call. sign_primary example_opts ''org.new.id'' ''com.example'' [''Payload'', ''A.app'']
            example_info_plist (Inr example_prov_entitlements) no_oracle = Inr call \<and>
          plist_buddy (Print ''CFBundleIdentifier'') (manifest call) =
            Inr (''com.example.app'', manifest call) \<and>
          bundle_id_txt example_opts ''com.example'' ''org.new.id'' = ''com.example''"
proof -
  from example_sign_primary_runs [where f = True and d = False] obtain call where
    run: "sign_primary example_opts ''org.new.id'' ''com.example'' [''Payload'', ''A.app'']
            example_info_plist (Inr example_prov_entitlements) no_oracle = Inr call"
    by (auto simp: example_opts_def)
  from force_original_id_keeps_identifier [OF run] run show ?thesis
    by (auto simp: example_opts_def example_info_plist_def)
qed

text \<open>
  C10. In every run of \<^verbatim>\<open>sign_primary\<close> that reaches the signing call, whatever the
  entitlements from the profile or from the oracle hold, the entitlements handed to the
  signing call have the key \<^verbatim>\<open>get-task-allow\<close> exactly when \<open>patch_debug\<close> is set, and then
  with the boolean value true.
\<close>

theorem get_task_allow_iff_patch_debug:
  assumes "sign_primary opts main_bundle_id old_main_bundle_id component info_plist
             prov_entitlements oracle = Inr call"
  shows "(''get-task-allow'' \<in> dom (entitlements call) \<longleftrightarrow> patch_debug opts) \<and>
         (patch_debug opts \<longrightarrow>
            entitlements call ''get-task-allow'' = Some (PScalar TBool ''true''))"
proof -
  from sign_primary_succeeds [OF assms] obtain old_bundle_id info1 entitlements1 where
    fin: "sign_primary_finish opts component old_bundle_id
             (component_bundle_id main_bundle_id old_main_bundle_id old_bundle_id)
             info1 entitlements1 = Inr call"
    by blast
  from sign_primary_finish_succeeds(2) [OF fin] show ?thesis
    by (simp add: dom_def)
qed

theorem get_task_allow_iff_patch_debug_witness:
  "(\<exists>call. sign_primary example_opts ''org.new.id'' ''com.example'' [''Payload'', ''A.app'']
             example_info_plist (Inr example_prov_entitlements) no_oracle = Inr call \<and>
           example_prov_entitlements ''get-task-allow'' \<noteq> None \<and>
           entitlements call ''get-task-allow'' = None) \<and>
   (\<exists>call. sign_primary (example_opts\<lparr>patch_debug := True\<rparr>) ''org.new.id'' ''com.example''
             [''Payload'', ''A.app''] example_info_plist (Inr example_prov_entitlements)
             no_oracle = Inr call \<and>
           entitlements call ''get-task-allow'' = Some (PScalar TBool ''true''))"
proof -
  from example_sign_primary_runs [where f = True and d = False] obtain c1 where
    r1: "sign_primary example_opts ''org.new.id'' ''com.example'' [''Payload'', ''A.app'']
            example_info_plist (Inr example_prov_entitlements) no_oracle = Inr c1"
    by (auto simp: example_opts_def)
  from example_sign_primary_runs [where f = True and d = True] obtain c2 where
    r2: "sign_primary (example_opts\<lparr>patch_debug := True\<rparr>) ''org.new.id'' ''com.example''
           [''Payload'', ''A.app''] example_info_plist (Inr example_prov_entitlements)
           no_oracle = Inr c2"
    by (auto simp: example_opts_def)
  from get_task_allow_iff_patch_debug [OF r1] have "entitlements c1 ''get-task-allow'' = None"
    by (auto simp: example_opts_def dom_def)
  moreover from get_task_allow_iff_patch_debug [OF r2] have
    "entitlements c2 ''get-task-allow'' = Some (PScalar TBool ''true'')"
    by (simp add: example_opts_def)
  ultimately show ?thesis
    using r1 r2 by (auto simp: example_prov_entitlements_def)
qed

subsection \<open>Retrying a build step\<close>

lemma exec_retry_loop_success:
  "time w = (now, w1) \<Longrightarrow> now - start_time < 90 \<Longrightarrow> func w1 = (Inr result, w2) \<Longrightarrow>
     exec_retry_loop time name func start_time last_error out w = Some (Inr result, out, w2)"
  by (subst exec_retry_loop.simps) simp

lemma exec_retry_loop_raise:
  "time w = (now, w1) \<Longrightarrow> now - start_time < 90 \<Longrightarrow> func w1 = (Inl e, w2) \<Longrightarrow>
     \<not> is_timeout e \<Longrightarrow>
     exec_retry_loop time name func start_time last_error out w = Some (Inl e, out, w2)"
  by (subst exec_retry_loop.simps) simp

lemma exec_retry_loop_retry:
  "time w = (now, w1) \<Longrightarrow> now - start_time < 90 \<Longrightarrow> func w1 = (Inl e, w2) \<Longrightarrow>
     is_timeout e \<Longrightarrow>
     exec_retry_loop time name func start_time last_error out w =
       exec_retry_loop time name func start_time (Some e)
         (out @ [name @ '' timed out, retrying'']) w2"
  by (subst exec_retry_loop.simps) simp

lemma exec_retry_loop_deadline:
  "time w = (now, w1) \<Longrightarrow> \<not> now - start_time < 90 \<Longrightarrow>
     exec_retry_loop time name func start_time last_error out w =
       Some (Inl (Fatal (name @ '' timed out too many times'') last_error), out, w1)"
  by (subst exec_retry_loop.simps) simp

text \<open>The loop after a course of timeouts: as many lines printed, the last error kept.\<close>

lemma exec_retry_loop_after_timeouts:
  "timed_out_attempts time func start_time es w = Some w' \<Longrightarrow>
     exec_retry_loop time name func start_time last_error out w =
       exec_retry_loop time name func start_time
         (if es = [] then last_error else Some (last es))
         (out @ replicate (length es) (name @ '' timed out, retrying'')) w'"
proof (induction es arbitrary: w last_error out)
  case Nil
  then show ?case by simp
next
  case (Cons e es)
  obtain now w1 where t: "time w = (now, w1)"
    by (cases "time w")
  obtain r w2 where f: "func w1 = (r, w2)"
    by (cases "func w1")
  from Cons.prems t f have below: "now - start_time < 90" and r: "r = Inl e"
    and tm: "is_timeout e" and rest: "timed_out_attempts time func start_time es w2 = Some w'"
    by (auto split: if_splits sum.splits)
  from f r have f': "func w1 = (Inl e, w2)" by simp
  have "exec_retry_loop time name func start_time last_error out w =
          exec_retry_loop time name func start_time (Some e)
            (out @ [name @ '' timed out, retrying'']) w2"
    using t below f' tm
    by (rule exec_retry_loop_retry [where now = now and ?w1.0 = w1 and e = e])
  also have "\<dots> = exec_retry_loop time name func start_time
         (if es = [] then Some e else Some (last es))
         ((out @ [name @ '' timed out, retrying'']) @
            replicate (length es) (name @ '' timed out, retrying'')) w'"
    by (rule Cons.IH [OF rest])
  finally show ?case
    by (simp add: replicate_app_Cons_same)
qed

text \<open>
  C3. \<^verbatim>\<open>exec_retry\<close> reads the clock once for the start. Let the steps then time out any
  number of times, each attempt started less than 90 seconds after that start; each
  timeout prints that the operation timed out and the step is tried again. At the next
  reading of the clock: if it is still less than 90 seconds after the start and the step
  returns, \<^verbatim>\<open>exec_retry\<close> returns that result; if the step fails with an error that is
  not a timeout, \<^verbatim>\<open>exec_retry\<close> ends with that error and no further attempt; if 90
  seconds or more have passed, no step is run and \<^verbatim>\<open>exec_retry\<close> ends with the fatal
  error that names the operation, caused by the last timeout.
\<close>

theorem exec_retry_retries_timeouts_until_deadline:
  assumes "time w0 = (start_time, w)"
    and "timed_out_attempts time func start_time es w = Some w'"
    and "time w' = (now, w1)"
  shows "(now - start_time < 90 \<and> func w1 = (Inr result, w2) \<longrightarrow>
            exec_retry time name func w0 =
              Some (Inr result, replicate (length es) (name @ '' timed out, retrying''), w2)) \<and>
         (now - start_time < 90 \<and> func w1 = (Inl e, w2) \<and> \<not> is_timeout e \<longrightarrow>
            exec_retry time name func w0 =
              Some (Inl e, replicate (length es) (name @ '' timed out, retrying''), w2)) \<and>
         (\<not> now - start_time < 90 \<longrightarrow>
            exec_retry time name func w0 =
              Some (Inl (Fatal (name @ '' timed out too many times'')
                           (if es = [] then None else Some (last es))),
                    replicate (length es) (name @ '' timed out, retrying''), w1))"
proof -
  have start: "exec_retry time name func w0 =
      exec_retry_loop time name func start_time
        (if es = [] then None else Some (last es))
        (replicate (length es) (name @ '' timed out, retrying'')) w'"
    using exec_retry_loop_after_timeouts [OF assms(2), of name None "[]"]
    by (simp add: exec_retry_def assms(1))
  have t: "time w' = (now, w1)"
    by (rule assms(3))
  have ok: "exec_retry_loop time name func start_time last_error out w' =
              Some (Inr result, out, w2)"
    if "now - start_time < 90" and "func w1 = (Inr result, w2)" for last_error out
    using t that by (rule exec_retry_loop_success [where now = now and ?w1.0 = w1])
  have raise: "exec_retry_loop time name func start_time last_error out w' =
              Some (Inl e, out, w2)"
    if "now - start_time < 90" and "func w1 = (Inl e, w2)" and "\<not> is_timeout e"
    for last_error out
    using t that by (rule exec_retry_loop_raise [where now = now and ?w1.0 = w1])
  have fatal: "exec_retry_loop time name func start_time last_error out w' =
              Some (Inl (Fatal (name @ '' timed out too many times'') last_error), out, w1)"
    if "\<not> now - start_time < 90" for last_error out
    using t that by (rule exec_retry_loop_deadline [where now = now])
  show ?thesis
    unfolding start using ok raise fatal by blast
qed

theorem exec_retry_retries_timeouts_until_deadline_witness:
  "exec_retry scripted_time ''xcode_archive'' scripted_func
     (1000, [Inl (TimedOut ''xcodebuild''), Inl (TimedOut ''xcodebuild''), Inr 7]) =
     Some (Inr 7,
           [''xcode_archive timed out, retrying'', ''xcode_archive timed out, retrying''],
           (1060, [])) \<and>
   exec_retry scripted_time ''xcode_archive'' scripted_func
     (0, [Inl (TimedOut ''xcodebuild''), Inl (ProcessError ''xcodebuild''), Inr 7]) =
     Some (Inl (ProcessError ''xcodebuild''), [''xcode_archive timed out, retrying''],
           (40, [Inr 7])) \<and>
   exec_retry scripted_time ''xcode_archive'' scripted_func
     (0, [Inl (TimedOut ''a''), Inl (TimedOut ''b''), Inl (TimedOut ''c''), Inl (TimedOut ''d''),
          Inl (TimedOut ''e''), Inr 7]) =
     Some (Inl (Fatal ''xcode_archive timed out too many times'' (Some (TimedOut ''e''))),
           replicate 5 ''xcode_archive timed out, retrying'', (100, [Inr 7]))"
  using
    exec_retry_retries_timeouts_until_deadline
      [of scripted_time
          "(1000, [Inl (TimedOut ''xcodebuild''), Inl (TimedOut ''xcodebuild''), Inr 7])" 1000
          "(1000, [Inl (TimedOut ''xcodebuild''), Inl (TimedOut ''xcodebuild''), Inr 7])"
          scripted_func "[TimedOut ''xcodebuild'', TimedOut ''xcodebuild'']"
          "(1040, [Inr 7])" 1040 "(1040, [Inr 7])" 7 "(1060, [])" "''xcode_archive''"
          "TimedOut ''x''"]
    exec_retry_retries_timeouts_until_deadline
      [of scripted_time
          "(0, [Inl (TimedOut ''xcodebuild''), Inl (ProcessError ''xcodebuild''), Inr 7])" 0
          "(0, [Inl (TimedOut ''xcodebuild''), Inl (ProcessError ''xcodebuild''), Inr 7])"
          scripted_func "[TimedOut ''xcodebuild'']"
          "(20, [Inl (ProcessError ''xcodebuild''), Inr 7])" 20
          "(20, [Inl (ProcessError ''xcodebuild''), Inr 7])" 7 "(40, [Inr 7])"
          "''xcode_archive''" "ProcessError ''xcodebuild''"]
    exec_retry_retries_timeouts_until_deadline
      [of scripted_time
          "(0, [Inl (TimedOut ''a''), Inl (TimedOut ''b''), Inl (TimedOut ''c''),
                Inl (TimedOut ''d''), Inl (TimedOut ''e''), Inr 7])" 0
          "(0, [Inl (TimedOut ''a''), Inl (TimedOut ''b''), Inl (TimedOut ''c''),
                Inl (TimedOut ''d''), Inl (TimedOut ''e''), Inr 7])"
          scripted_func
          "[TimedOut ''a'', TimedOut ''b'', TimedOut ''c'', TimedOut ''d'', TimedOut ''e'']"
          "(100, [Inr 7])" 100 "(100, [Inr 7])" 7 "(100, [Inr 7])" "''xcode_archive''"
          "TimedOut ''x''"]
  by (simp add: scripted_time_def scripted_func_def is_timeout_def eval_nat_numeral)

text \<open>On the scripted world every step takes its time, and the loop always ends.\<close>

lemma exec_retry_scripted_returns:
  "\<exists>r. exec_retry_loop scripted_time name scripted_func start_time last_error out (t, script) =
         Some r"
proof (induction script arbitrary: t last_error out)
  case Nil
  show ?case
    by (subst exec_retry_loop.simps)
       (simp add: scripted_time_def scripted_func_def is_timeout_def)
next
  case (Cons r script)
  show ?case
  proof (cases "t - start_time < 90 \<and> (\<exists>e. r = Inl e \<and> is_timeout e)")
    case True
    then obtain e where "r = Inl e" "is_timeout e" "t - start_time < 90"
      by blast
    then have "exec_retry_loop scripted_time name scripted_func start_time last_error out
                 (t, r # script) =
               exec_retry_loop scripted_time name scripted_func start_time (Some e)
                 (out @ [name @ '' timed out, retrying'']) (t + 20, script)"
      by (intro exec_retry_loop_retry [where now = t and ?w1.0 = "(t, r # script)"])
         (simp_all add: scripted_time_def scripted_func_def)
    with Cons.IH [where t = "t + 20" and last_error = "Some e"
        and out = "out @ [name @ '' timed out, retrying'']"]
    show ?thesis by simp
  next
    case False
    then show ?thesis
      by (subst exec_retry_loop.simps)
         (auto simp: scripted_time_def scripted_func_def split: sum.splits)
  qed
qed

subsection \<open>The scheduler\<close>

lemma wait_contained_result:
  "wait_contained component js = Inr (js', ev) \<Longrightarrow>
     js' = filter (\<lambda>kv. \<not> prefix component (fst kv)) js \<and>
     (\<forall>p. Dispatched p \<notin> set ev) \<and>
     (\<forall>kv \<in> set js. prefix component (fst kv) \<longrightarrow> Checked (fst kv) \<in> set ev) \<and>
     (\<forall>p. Waited p \<in> set ev \<or> Checked p \<in> set ev \<longrightarrow>
          prefix component p \<and> p \<in> fst ` set js)"
proof (induction js arbitrary: js' ev)
  case Nil
  then show ?case by simp
next
  case (Cons a js)
  obtain p pp where a: "a = (p, pp)" by (cases a)
  show ?case
  proof (cases "prefix component p")
    case False
    with Cons.prems a obtain js1 where
      r: "wait_contained component js = Inr (js1, ev)" and js': "js' = (p, pp) # js1"
      by (auto simp: bind_result_def split: sum.splits)
    from Cons.IH [OF r] False a js' show ?thesis
      by auto
  next
    case True
    with Cons.prems a obtain ev1 where
      r: "wait_contained component js = Inr (js', ev1)"
      and ev: "ev = (if running pp then [Waited p] else []) @ [Checked p] @ ev1"
      by (auto simp: bind_result_def split: sum.splits)
    from Cons.IH [OF r] True a ev show ?thesis
      by auto
  qed
qed

lemma map_fst_jobs_set:
  "map fst (jobs_set js k v) = (if k \<in> fst ` set js then map fst js else map fst js @ [k])"
proof -
  have "map fst (map (\<lambda>kv. if fst kv = k then (k, v) else kv) js) = map fst js"
    by (induction js) auto
  then show ?thesis
    by (simp add: jobs_set_def)
qed

lemma keys_jobs_set: "fst ` set (jobs_set js k v) = insert k (fst ` set js)"
proof -
  have "set (map fst (jobs_set js k v)) = insert k (set (map fst js))"
    by (simp only: map_fst_jobs_set) (auto split: if_splits)
  then show ?thesis
    by simp
qed

lemma first_Dispatched_split:
  assumes "ev1 @ Dispatched c0 # ev2 = pre @ Dispatched c # post"
    and "\<forall>p. Dispatched p \<notin> set ev1"
  shows "(pre = ev1 \<and> c = c0 \<and> post = ev2) \<or>
         (\<exists>pre2. pre = ev1 @ Dispatched c0 # pre2 \<and> ev2 = pre2 @ Dispatched c # post)"
proof -
  from assms(1) consider
    us where "ev1 = pre @ us" "us @ Dispatched c0 # ev2 = Dispatched c # post"
    | us where "ev1 @ us = pre" "Dispatched c0 # ev2 = us @ Dispatched c # post"
    by (auto simp: append_eq_append_conv2)
  then show ?thesis
  proof cases
    case 1
    with assms(2) have "us = []"
      by (cases us) auto
    with 1 show ?thesis by simp
  next
    case 2
    then show ?thesis
      by (cases us) auto
  qed
qed

text \<open>
  What the loop over the components does guarantee: when a component is dispatched,
  every job that was in flight or was dispatched before it, and lies in it, has been
  checked.
\<close>

lemma dispatch_all_contained_checked_first:
  "dispatch_all primary secondary cs js = Inr (js', ev) \<Longrightarrow>
   ev = pre @ Dispatched c # post \<Longrightarrow>
   p \<in> fst ` set js \<or> Dispatched p \<in> set pre \<Longrightarrow>
   prefix c p \<Longrightarrow>
   Checked p \<in> set pre"
proof (induction cs arbitrary: js js' ev pre)
  case Nil
  then show ?case by simp
next
  case (Cons c0 rest)
  from Cons.prems(1) obtain js1 ev1 pp ev2 where
    w: "wait_contained c0 js = Inr (js1, ev1)"
    and d: "dispatch_all primary secondary rest (jobs_set js1 c0 pp) = Inr (js', ev2)"
    and ev: "ev = ev1 @ Dispatched c0 # ev2"
    by (auto simp: bind_result_def split: sum.splits if_splits)
  note wr = wait_contained_result [OF w]
  from wr have nd: "\<forall>q. Dispatched q \<notin> set ev1" by blast
  from ev Cons.prems(2) have "ev1 @ Dispatched c0 # ev2 = pre @ Dispatched c # post"
    by simp
  from first_Dispatched_split [OF this nd] show ?case
  proof
    assume first: "pre = ev1 \<and> c = c0 \<and> post = ev2"
    with Cons.prems(3) nd have "p \<in> fst ` set js" by blast
    with wr Cons.prems(4) first show ?thesis by auto
  next
    assume "\<exists>pre2. pre = ev1 @ Dispatched c0 # pre2 \<and> ev2 = pre2 @ Dispatched c # post"
    then obtain pre2 where pre: "pre = ev1 @ Dispatched c0 # pre2"
      and ev2: "ev2 = pre2 @ Dispatched c # post"
      by blast
    show ?thesis
    proof (cases "p \<in> fst ` set js \<and> prefix c0 p")
      case True
      with wr have "Checked p \<in> set ev1" by auto
      with pre show ?thesis by simp
    next
      case False
      have "p \<in> fst ` set (jobs_set js1 c0 pp) \<or> Dispatched p \<in> set pre2"
      proof (cases "p \<in> fst ` set js")
        case True
        with False have "\<not> prefix c0 p" by simp
        with True wr have "p \<in> fst ` set js1" by auto
        then show ?thesis by (simp add: keys_jobs_set)
      next
        case False
        with Cons.prems(3) have "Dispatched p \<in> set pre" by simp
        with pre nd have "p = c0 \<or> Dispatched p \<in> set pre2" by auto
        then show ?thesis by (auto simp: keys_jobs_set)
      qed
      from Cons.IH [OF d ev2 this Cons.prems(4)] pre show ?thesis by simp
    qed
  qed
qed

text \<open>
  C1. The order of the components does not put every contained component first: on a
  bundle with an application inside an extension, the extension is dispatched, then the
  application inside it is dispatched while the extension's job runs, and the job of the
  contained application is waited for and checked only after its container was
  dispatched.
\<close>

theorem nested_app_dispatched_after_its_container:
  "prefix watch_ext watch_app \<and> watch_ext \<noteq> watch_app \<and>
   components watch_glob watch_main_app = [watch_ext, watch_app, watch_main_app] \<and>
   sign_components running_job running_job (components watch_glob watch_main_app) =
     Inr [Dispatched watch_ext, Dispatched watch_app,
          Waited watch_ext, Checked watch_ext, Waited watch_app, Checked watch_app,
          Dispatched watch_main_app, Waited watch_main_app, Checked watch_main_app]"
proof -
  have c: "components watch_glob watch_main_app = [watch_ext, watch_app, watch_main_app]"
    by (simp add: components_def component_exts_def watch_glob_def)
  have s1: "path_suffix watch_ext = ''.appex''" and s2: "path_suffix watch_app = ''.app''"
    and s3: "path_suffix watch_main_app = ''.app''"
    by (simp_all add: path_suffix_def watch_ext_def watch_app_def watch_main_app_def)
  have p: "prefix watch_ext watch_app" "\<not> prefix watch_app watch_ext"
    "prefix watch_main_app watch_ext" "prefix watch_main_app watch_app"
    "watch_ext \<noteq> watch_app" "watch_app \<noteq> watch_ext"
    "watch_main_app \<noteq> watch_ext" "watch_main_app \<noteq> watch_app"
    by (simp_all add: watch_ext_def watch_app_def watch_main_app_def)
  have "sign_components running_job running_job [watch_ext, watch_app, watch_main_app] =
     Inr [Dispatched watch_ext, Dispatched watch_app,
          Waited watch_ext, Checked watch_ext, Waited watch_app, Checked watch_app,
          Dispatched watch_main_app, Waited watch_main_app, Checked watch_main_app]"
    by (simp add: sign_components_def s1 s2 s3 p running_job_def bind_result_def jobs_set_def
        popen_check_def)
  with c p show ?thesis by simp
qed

end
